theory Spec2Isabelle
  imports Main
begin

section \<open>Data model of \<^verbatim>\<open>RoonExtension.ts\<close>\<close>

text \<open>
  \<^verbatim>\<open>export type RoonServiceRequired = 'not_required' | 'required' | 'optional';\<close>
\<close>

datatype RoonServiceRequired = not_required | required | optional

text \<open>The two literals of \<^verbatim>\<open>log_level?: 'none' | 'all'\<close>.\<close>

datatype LogLevel = log_none | log_all

text \<open>
  Modelled from the spec: \<^verbatim>\<open>RoonExtensionDescription\<close> and \<^verbatim>\<open>WSConnectOptions\<close> are
  declared in \<^verbatim>\<open>./interfaces\<close>; the facade only forwards them ("description metadata",
  "connection options"), so each is an uninterpreted handle here. The same holds for the
  response descriptor and the update body of a subscription.
\<close>

type_synonym RoonExtensionDescription = string
type_synonym WSConnectOptions = string
type_synonym RoonSubscriptionResponse = string
type_synonym SubscriptionBody = string

text \<open>
  \<^verbatim>\<open>interface RoonExtensionOptions\<close>. A property that is absent or \<^verbatim>\<open>undefined\<close> is
  \<open>None\<close>. The declaration makes \<^verbatim>\<open>description\<close> mandatory, but JavaScript does not
  enforce it and \<^verbatim>\<open>update_options\<close> can overwrite it with \<^verbatim>\<open>undefined\<close>, so the field
  is optional here like the others.
\<close>

record RoonExtensionOptions =
  description :: "RoonExtensionDescription option"
  log_level :: "LogLevel option"
  RoonApiBrowse :: "RoonServiceRequired option"
  RoonApiImage :: "RoonServiceRequired option"
  RoonApiTransport :: "RoonServiceRequired option"
  subscribe_outputs :: "bool option"
  subscribe_zones :: "bool option"

text \<open>
  \<^verbatim>\<open>Partial<RoonExtensionOptions>\<close>, the argument of \<^verbatim>\<open>update_options\<close>. The outer option
  says whether the object has the property at all (\<^verbatim>\<open>Object.assign\<close> copies every own
  property, also one whose value is \<^verbatim>\<open>undefined\<close>); the inner one is the value.
\<close>

record PartialOptions =
  p_description :: "RoonExtensionDescription option option"
  p_log_level :: "LogLevel option option"
  p_RoonApiBrowse :: "RoonServiceRequired option option"
  p_RoonApiImage :: "RoonServiceRequired option option"
  p_RoonApiTransport :: "RoonServiceRequired option option"
  p_subscribe_outputs :: "bool option option"
  p_subscribe_zones :: "bool option option"

text \<open>JavaScript truthiness of a \<^verbatim>\<open>boolean | undefined\<close>.\<close>

fun truthy :: "bool option \<Rightarrow> bool" where
  "truthy (Some b) = b"
| "truthy None = False"

text \<open>
  Modelled from the spec: \<^verbatim>\<open>RoonCore\<close> is declared in \<^verbatim>\<open>./interfaces\<close>. The spec calls it
  "an opaque handle supplied by the external client on pairing". The facade reads one
  thing from it, \<^verbatim>\<open>core.services.RoonApiTransport\<close>; \<open>has_transport\<close> says whether that
  property is defined (a method call on an undefined one throws).
\<close>

datatype RoonCore = RoonCore (core_id: nat) (has_transport: bool)

text \<open>The sub-service classes \<^verbatim>\<open>RoonKit.RoonApiBrowse\<close>, ..., handed over as constructors.\<close>

datatype RequestedRoonServices = RoonKit_RoonApiBrowse | RoonKit_RoonApiImage | RoonKit_RoonApiTransport

text \<open>
  Elements of a \<^verbatim>\<open>ProvidedRoonServices[]\<close>: the facade's own \<^verbatim>\<open>this._status\<close>, or a
  service object of the host.
\<close>

datatype ProvidedRoonServices = this_status | host_service nat

text \<open>
  Arrays live in a store, because \<^verbatim>\<open>provided_services.push\<close> mutates the array the caller
  holds. \<open>caller_array n\<close> is an array the host created; \<open>default_array n\<close> is the \<open>n\<close>-th
  array created by the default value \<^verbatim>\<open>provided_services = []\<close>.
\<close>

datatype array_ref = caller_array nat | default_array nat

text \<open>What the facade throws: \<^verbatim>\<open>new Error(message)\<close>, or the runtime's \<^verbatim>\<open>TypeError\<close> for a
  property read on \<^verbatim>\<open>undefined\<close>.\<close>

datatype js_error = Error string | TypeError

datatype 'a completion = Returns 'a | Throws js_error

definition already_started :: string where
  "already_started = ''RoonExtension: Discovery has already been started.''"

definition not_started :: string where
  "not_started = ''RoonExtension: Discovery hasn't been started yet. Call start_discovery() first.''"

definition cant_update :: string where
  "cant_update = ''RoonExtension: Can't update options after discovery has been started.''"

text \<open>The four events of the facade's \<^verbatim>\<open>EventEmitter\<close> surface, with their payloads.\<close>

datatype event =
    ev_core_paired RoonCore
  | ev_core_unpaired RoonCore
  | ev_subscribe_outputs RoonCore RoonSubscriptionResponse SubscriptionBody
  | ev_subscribe_zones RoonCore RoonSubscriptionResponse SubscriptionBody

text \<open>Calls made on the underlying client \<^verbatim>\<open>this._api\<close>, in the order they are issued.\<close>

datatype api_call =
    createRoonApi "RoonExtensionDescription option" "LogLevel option"
  | init_services "RequestedRoonServices list" "RequestedRoonServices list" array_ref
  | api_start_discovery
  | api_ws_connect WSConnectOptions

datatype console_channel = console_error | console_log

text \<open>The two feeds of the transport sub-service. A registered callback
  \<^verbatim>\<open>(r, b) => this.emit(feed, core, r, b)\<close> is the feed with the core its closure holds.\<close>

datatype feed = outputs_feed | zones_feed

subsection \<open>The pairing slot\<close>

text \<open>A promise handed out by \<^verbatim>\<open>get_core\<close>: still pending, or resolved with a core.\<close>

datatype promise_state = Pending | Resolved RoonCore

text \<open>
  Modelled from the spec: \<^verbatim>\<open>TransientObject\<close> comes from \<^verbatim>\<open>./internals\<close>. The spec's
  Pairing Slot "holds at most one current core reference plus a queue of pending waiters";
  its states are "empty (no core paired, zero or more waiters queued) and filled(core)".
  Promises are numbered by their position in the store of promises.
\<close>

record TransientObject =
  held :: "RoonCore option"
  waiters :: "nat list"

text \<open>Modelled from the spec: \<^verbatim>\<open>new TransientObject()\<close>, "a fresh empty one".\<close>

definition new_TransientObject :: TransientObject where
  "new_TransientObject = \<lparr>held = None, waiters = []\<rparr>"

text \<open>Modelled from the spec: resolution "wakes all queued waiters with that core".\<close>

fun wake :: "RoonCore \<Rightarrow> nat list \<Rightarrow> promise_state list \<Rightarrow> promise_state list" where
  "wake c [] ps = ps"
| "wake c (w # ws) ps = wake c ws (ps[w := Resolved c])"

text \<open>
  Modelled from the spec: \<^verbatim>\<open>TransientObject.getObject\<close>. "Waiters may register at any time
  ... waiters registered after resolution receive the already-resolved value immediately
  without suspension." The result is the new promise, the slot and the store of promises.
\<close>

definition getObject :: "TransientObject \<Rightarrow> promise_state list \<Rightarrow> nat \<times> TransientObject \<times> promise_state list" where
  "getObject t ps =
     (case held t of
        Some c \<Rightarrow> (length ps, t, ps @ [Resolved c])
      | None \<Rightarrow> (length ps, t\<lparr>waiters := waiters t @ [length ps]\<rparr>, ps @ [Pending]))"

text \<open>
  Modelled from the spec: \<^verbatim>\<open>TransientObject.resolve\<close>. The only transition is "empty to
  filled(core) on pairing (wakes all queued waiters with that core)"; a filled slot is
  left as it is. The core it hands back is the one the events and subscriptions carry.
\<close>

definition resolve :: "RoonCore \<Rightarrow> TransientObject \<Rightarrow> promise_state list \<Rightarrow> RoonCore \<times> TransientObject \<times> promise_state list" where
  "resolve c t ps =
     (case held t of
        None \<Rightarrow> (c, \<lparr>held = Some c, waiters = []\<rparr>, wake c (waiters t) ps)
      | Some _ \<Rightarrow> (c, t, ps))"

text \<open>
  Modelled from the spec: \<^verbatim>\<open>TransientObject.dispose\<close>. The slot is discarded, "never
  transitioned back to empty in place, because any waiter that had already been resolved
  before the unpair must keep the core reference it got": no promise changes.
\<close>

definition dispose :: "TransientObject \<Rightarrow> promise_state list \<Rightarrow> promise_state list" where
  "dispose t ps = ps"

subsection \<open>The instance and what it touches\<close>

text \<open>
  \<open>this_options\<close> and \<open>this_core\<close> are the private fields \<^verbatim>\<open>_options\<close> and \<^verbatim>\<open>_core\<close>
  (\<open>None\<close> is \<^verbatim>\<open>undefined\<close>). The other fields are the collaborators, each a record of what
  it was given, in order: the store of arrays, the promises handed out, the calls on the
  client and on the status helper, the lines on the console, the events emitted, and the
  callbacks registered with a transport sub-service. Calls on collaborators return
  normally.
\<close>

record RoonExtension =
  this_options :: RoonExtensionOptions
  this_core :: "TransientObject option"
  arrays :: "array_ref \<Rightarrow> ProvidedRoonServices list"
  n_default_arrays :: nat
  promises :: "promise_state list"
  api_calls :: "api_call list"
  status_calls :: "(string \<times> bool) list"
  console :: "(console_channel \<times> string) list"
  emitted :: "event list"
  subscriptions :: "(feed \<times> RoonCore) list"

section \<open>Operations\<close>

text \<open>\<^verbatim>\<open>this.emit(...)\<close>.\<close>

definition emit :: "event \<Rightarrow> RoonExtension \<Rightarrow> RoonExtension" where
  "emit e s = s\<lparr>emitted := emitted s @ [e]\<rparr>"

text \<open>
  The constructor (lines 64-104): copy the options, force the transport requirement when
  there is a subscription, create the client. \<open>h\<close> is the store of arrays as the host has
  it.
\<close>

definition constructor :: "RoonExtensionOptions \<Rightarrow> (array_ref \<Rightarrow> ProvidedRoonServices list) \<Rightarrow> RoonExtension" where
  "constructor opts h =
     (let copied = opts;
          hasSubscriptions = truthy (subscribe_outputs copied) \<or> truthy (subscribe_zones copied);
          final = (if hasSubscriptions then copied\<lparr>RoonApiTransport := Some required\<rparr> else copied)
      in \<lparr>this_options = final,
          this_core = None,
          arrays = h,
          n_default_arrays = 0,
          promises = [],
          api_calls = [createRoonApi (description opts) (log_level opts)],
          status_calls = [],
          console = [],
          emitted = [],
          subscriptions = []\<rparr>)"

text \<open>\<^verbatim>\<open>requireService\<close> (lines 193-204), on the pair (required, optional).\<close>

fun requireService :: "RoonServiceRequired option \<Rightarrow> RequestedRoonServices \<Rightarrow>
    RequestedRoonServices list \<times> RequestedRoonServices list \<Rightarrow>
    RequestedRoonServices list \<times> RequestedRoonServices list" where
  "requireService None svc (required_services, optional_services) = (required_services, optional_services)"
| "requireService (Some required) svc (required_services, optional_services) =
     (required_services @ [svc], optional_services)"
| "requireService (Some optional) svc (required_services, optional_services) =
     (required_services, optional_services @ [svc])"
| "requireService (Some not_required) svc (required_services, optional_services) =
     (required_services, optional_services)"

text \<open>\<^verbatim>\<open>instantiateCore\<close> (lines 206-213), the one-shot guard.\<close>

definition instantiateCore :: "RoonExtension \<Rightarrow> unit completion \<times> RoonExtension" where
  "instantiateCore s =
     (case this_core s of
        Some _ \<Rightarrow> (Throws (Error already_started), s)
      | None \<Rightarrow> (Returns (), s\<lparr>this_core := Some new_TransientObject\<rparr>))"

text \<open>\<^verbatim>\<open>initializeServices\<close> (lines 215-229).\<close>

definition initializeServices :: "array_ref \<Rightarrow> RoonExtension \<Rightarrow> RoonExtension" where
  "initializeServices provided_services s =
     (let s1 = s\<lparr>arrays := (arrays s)(provided_services := arrays s provided_services @ [this_status])\<rparr>;
          lists0 = ([], []);
          lists1 = requireService (RoonApiBrowse (this_options s1)) RoonKit_RoonApiBrowse lists0;
          lists2 = requireService (RoonApiImage (this_options s1)) RoonKit_RoonApiImage lists1;
          lists3 = requireService (RoonApiTransport (this_options s1)) RoonKit_RoonApiTransport lists2
      in s1\<lparr>api_calls := api_calls s1 @ [init_services (fst lists3) (snd lists3) provided_services]\<rparr>)"

text \<open>The default value \<^verbatim>\<open>provided_services = []\<close>: an omitted argument gets a new empty array.\<close>

definition provided_or_default :: "array_ref option \<Rightarrow> RoonExtension \<Rightarrow> array_ref \<times> RoonExtension" where
  "provided_or_default arg s =
     (case arg of
        Some a \<Rightarrow> (a, s)
      | None \<Rightarrow>
          (default_array (n_default_arrays s),
           s\<lparr>arrays := (arrays s)(default_array (n_default_arrays s) := []),
             n_default_arrays := Suc (n_default_arrays s)\<rparr>))"

text \<open>\<^verbatim>\<open>start_discovery\<close> (lines 117-124).\<close>

definition start_discovery :: "array_ref option \<Rightarrow> RoonExtension \<Rightarrow> unit completion \<times> RoonExtension" where
  "start_discovery arg s =
     (let (provided_services, s0) = provided_or_default arg s in
      case instantiateCore s0 of
        (Throws e, s1) \<Rightarrow> (Throws e, s1)
      | (Returns _, s1) \<Rightarrow>
          (let s2 = initializeServices provided_services s1
           in (Returns (), s2\<lparr>api_calls := api_calls s2 @ [api_start_discovery]\<rparr>)))"

text \<open>\<^verbatim>\<open>ws_connect\<close> (lines 131-137).\<close>

definition ws_connect :: "WSConnectOptions \<Rightarrow> array_ref option \<Rightarrow> RoonExtension \<Rightarrow> unit completion \<times> RoonExtension" where
  "ws_connect options arg s =
     (let (provided_services, s0) = provided_or_default arg s in
      case instantiateCore s0 of
        (Throws e, s1) \<Rightarrow> (Throws e, s1)
      | (Returns _, s1) \<Rightarrow>
          (let s2 = initializeServices provided_services s1
           in (Returns (), s2\<lparr>api_calls := api_calls s2 @ [api_ws_connect options]\<rparr>)))"

text \<open>\<^verbatim>\<open>set_status\<close> (lines 147-156); an omitted \<^verbatim>\<open>is_error\<close> is \<^verbatim>\<open>false\<close>.\<close>

definition set_status :: "string \<Rightarrow> bool option \<Rightarrow> RoonExtension \<Rightarrow> unit completion \<times> RoonExtension" where
  "set_status message arg s =
     (let is_error = (case arg of None \<Rightarrow> False | Some b \<Rightarrow> b);
          s1 = s\<lparr>status_calls := status_calls s @ [(message, is_error)]\<rparr>
      in if log_level (this_options s1) \<noteq> Some log_none then
           (if is_error then
              (Returns (), s1\<lparr>console := console s1 @ [(console_error, ''Extension Error: '' @ message)]\<rparr>)
            else
              (Returns (), s1\<lparr>console := console s1 @ [(console_log, ''Extension Status: '' @ message)]\<rparr>))
         else (Returns (), s1))"

text \<open>\<^verbatim>\<open>Object.assign(this._options, options)\<close>: every property of the source overwrites.\<close>

definition assign_property :: "'a \<Rightarrow> 'a option \<Rightarrow> 'a" where
  "assign_property old new = (case new of None \<Rightarrow> old | Some v \<Rightarrow> v)"

definition Object_assign :: "RoonExtensionOptions \<Rightarrow> PartialOptions \<Rightarrow> RoonExtensionOptions" where
  "Object_assign target source =
     \<lparr>description = assign_property (description target) (p_description source),
      log_level = assign_property (log_level target) (p_log_level source),
      RoonApiBrowse = assign_property (RoonApiBrowse target) (p_RoonApiBrowse source),
      RoonApiImage = assign_property (RoonApiImage target) (p_RoonApiImage source),
      RoonApiTransport = assign_property (RoonApiTransport target) (p_RoonApiTransport source),
      subscribe_outputs = assign_property (subscribe_outputs target) (p_subscribe_outputs source),
      subscribe_zones = assign_property (subscribe_zones target) (p_subscribe_zones source)\<rparr>"

text \<open>\<^verbatim>\<open>update_options\<close> (lines 168-174).\<close>

definition update_options :: "PartialOptions \<Rightarrow> RoonExtension \<Rightarrow> unit completion \<times> RoonExtension" where
  "update_options options s =
     (case this_core s of
        Some _ \<Rightarrow> (Throws (Error cant_update), s)
      | None \<Rightarrow> (Returns (), s\<lparr>this_options := Object_assign (this_options s) options\<rparr>))"

text \<open>\<^verbatim>\<open>ensureStarted\<close> (lines 185-191).\<close>

definition ensureStarted :: "RoonExtension \<Rightarrow> TransientObject completion" where
  "ensureStarted s =
     (case this_core s of
        None \<Rightarrow> Throws (Error not_started)
      | Some t \<Rightarrow> Returns t)"

text \<open>\<^verbatim>\<open>get_core\<close> (lines 180-183); the result is the promise it returns.\<close>

definition get_core :: "RoonExtension \<Rightarrow> nat completion \<times> RoonExtension" where
  "get_core s =
     (case ensureStarted s of
        Throws e \<Rightarrow> (Throws e, s)
      | Returns transient \<Rightarrow>
          (let (p, t', ps') = getObject transient (promises s)
           in (Returns p, s\<lparr>this_core := Some t', promises := ps'\<rparr>)))"

text \<open>
  \<^verbatim>\<open>core.services.RoonApiTransport.subscribe_outputs(cb)\<close> and \<^verbatim>\<open>subscribe_zones(cb)\<close>:
  the callback is registered with the core's transport sub-service; without that
  sub-service the property read throws.
\<close>

definition subscribe :: "feed \<Rightarrow> RoonCore \<Rightarrow> RoonExtension \<Rightarrow> unit completion \<times> RoonExtension" where
  "subscribe f core s =
     (if has_transport core then (Returns (), s\<lparr>subscriptions := subscriptions s @ [(f, core)]\<rparr>)
      else (Throws TypeError, s))"

text \<open>The \<^verbatim>\<open>core_paired\<close> callback (lines 82-95). \<^verbatim>\<open>this._core!\<close> on \<^verbatim>\<open>undefined\<close> throws.\<close>

definition core_paired :: "RoonCore \<Rightarrow> RoonExtension \<Rightarrow> unit completion \<times> RoonExtension" where
  "core_paired newCore s =
     (case this_core s of
        None \<Rightarrow> (Throws TypeError, s)
      | Some t \<Rightarrow>
          (let (core, t', ps') = resolve newCore t (promises s);
               s1 = s\<lparr>this_core := Some t', promises := ps'\<rparr>;
               s2 = emit (ev_core_paired core) s1;
               (r3, s3) = (if truthy (subscribe_outputs (this_options s2))
                           then subscribe outputs_feed core s2 else (Returns (), s2))
           in case r3 of
                Throws e \<Rightarrow> (Throws e, s3)
              | Returns _ \<Rightarrow>
                  (if truthy (subscribe_zones (this_options s3))
                   then subscribe zones_feed core s3 else (Returns (), s3))))"

text \<open>The \<^verbatim>\<open>core_unpaired\<close> callback (lines 96-100).\<close>

definition core_unpaired :: "RoonCore \<Rightarrow> RoonExtension \<Rightarrow> unit completion \<times> RoonExtension" where
  "core_unpaired oldCore s =
     (let s1 = emit (ev_core_unpaired oldCore) s in
      case this_core s1 of
        None \<Rightarrow> (Throws TypeError, s1)
      | Some t \<Rightarrow>
          (let s2 = s1\<lparr>promises := dispose t (promises s1)\<rparr>
           in (Returns (), s2\<lparr>this_core := Some new_TransientObject\<rparr>)))"

text \<open>
  The transport sub-service delivers an update \<open>(r, b)\<close> on the \<open>k\<close>-th registered
  callback, which runs \<^verbatim>\<open>this.emit(feed, core, r, b)\<close> (lines 89 and 93).
\<close>

definition deliver :: "nat \<Rightarrow> RoonSubscriptionResponse \<Rightarrow> SubscriptionBody \<Rightarrow> RoonExtension \<Rightarrow> RoonExtension" where
  "deliver k r b s =
     (if k < length (subscriptions s) then
        (case subscriptions s ! k of
           (outputs_feed, core) \<Rightarrow> emit (ev_subscribe_outputs core r b) s
         | (zones_feed, core) \<Rightarrow> emit (ev_subscribe_zones core r b) s)
      else s)"

subsection \<open>Histories\<close>

text \<open>
  What can happen to an instance: the host calls a method, the client fires a lifecycle
  callback, or a transport sub-service delivers an update. A call that throws leaves the
  instance as it was at the throw; the history goes on from there.
\<close>

datatype action =
    call_start_discovery "array_ref option"
  | call_ws_connect WSConnectOptions "array_ref option"
  | call_set_status string "bool option"
  | call_update_options PartialOptions
  | call_get_core
  | fire_core_paired RoonCore
  | fire_core_unpaired RoonCore
  | deliver_update nat RoonSubscriptionResponse SubscriptionBody

fun step :: "action \<Rightarrow> RoonExtension \<Rightarrow> RoonExtension" where
  "step (call_start_discovery a) s = snd (start_discovery a s)"
| "step (call_ws_connect w a) s = snd (ws_connect w a s)"
| "step (call_set_status m e) s = snd (set_status m e s)"
| "step (call_update_options p) s = snd (update_options p s)"
| "step call_get_core s = snd (get_core s)"
| "step (fire_core_paired c) s = snd (core_paired c s)"
| "step (fire_core_unpaired c) s = snd (core_unpaired c s)"
| "step (deliver_update k r b) s = deliver k r b s"

fun run :: "action list \<Rightarrow> RoonExtension \<Rightarrow> RoonExtension" where
  "run [] s = s"
| "run (a # as) s = run as (step a s)"

fun is_start :: "action \<Rightarrow> bool" where
  "is_start (call_start_discovery _) = True"
| "is_start (call_ws_connect _ _) = True"
| "is_start _ = False"

fun is_pairing :: "action \<Rightarrow> bool" where
  "is_pairing (fire_core_paired _) = True"
| "is_pairing _ = False"

fun is_unpairing :: "action \<Rightarrow> bool" where
  "is_unpairing (fire_core_unpaired _) = True"
| "is_unpairing _ = False"

text \<open>\<^verbatim>\<open>if (this._core)\<close>: the pairing slot exists from the first start on.\<close>

definition started :: "RoonExtension \<Rightarrow> bool" where
  "started s = (this_core s \<noteq> None)"

subsection \<open>Example values\<close>

text \<open>\<^verbatim>\<open>{description: ...}\<close> with nothing else set, and a host that holds one array with one
  service of its own.\<close>

definition example_options :: RoonExtensionOptions where
  "example_options = \<lparr>description = Some ''ext'', log_level = None, RoonApiBrowse = None,
     RoonApiImage = None, RoonApiTransport = None, subscribe_outputs = None, subscribe_zones = None\<rparr>"

definition example_arrays :: "array_ref \<Rightarrow> ProvidedRoonServices list" where
  "example_arrays = (\<lambda>_. [])(caller_array 0 := [host_service 1])"

definition subscribe_zones_only :: PartialOptions where
  "subscribe_zones_only = \<lparr>p_description = None, p_log_level = None, p_RoonApiBrowse = None,
     p_RoonApiImage = None, p_RoonApiTransport = None, p_subscribe_outputs = None,
     p_subscribe_zones = Some (Some True)\<rparr>"

definition both_feeds :: RoonExtensionOptions where
  "both_feeds = example_options\<lparr>subscribe_outputs := Some True, subscribe_zones := Some True\<rparr>"

subsection \<open>Phases of the pairing slot\<close>

text \<open>The slot exists and holds no core: started, and not paired at the moment.\<close>

definition empty_slot :: "RoonExtension \<Rightarrow> bool" where
  "empty_slot s = (case this_core s of None \<Rightarrow> False | Some t \<Rightarrow> held t = None)"

text \<open>The slot exists and holds the core \<open>c\<close>.\<close>

definition paired_with :: "RoonCore \<Rightarrow> RoonExtension \<Rightarrow> bool" where
  "paired_with c s = (case this_core s of None \<Rightarrow> False | Some t \<Rightarrow> held t = Some c)"

text \<open>
  No pairing event yet: every promise handed out so far is pending, and the slot, once
  it exists, is empty.
\<close>

definition quiet :: "RoonExtension \<Rightarrow> bool" where
  "quiet s =
     ((\<forall>p < length (promises s). promises s ! p = Pending) \<and>
      (case this_core s of None \<Rightarrow> promises s = [] | Some t \<Rightarrow> held t = None))"

text \<open>
  No pairing or unpairing event since there were \<open>n\<close> promises: the slot, once it
  exists, is empty and every promise from the \<open>n\<close>-th on is in its queue.
\<close>

definition waiting_since :: "nat \<Rightarrow> RoonExtension \<Rightarrow> bool" where
  "waiting_since n s =
     (n \<le> length (promises s) \<and>
      (case this_core s of
         None \<Rightarrow> length (promises s) = n
       | Some t \<Rightarrow> held t = None \<and> {n..<length (promises s)} \<subseteq> set (waiters t)))"

subsection \<open>Listeners\<close>

text \<open>
  \<^verbatim>\<open>RoonExtension extends EventEmitter\<close>: \<^verbatim>\<open>this.emit\<close> runs the listeners the host has
  registered for the event, one after the other, before it returns (the spec:
  "synchronous in-order delivery to all current listeners"). A listener is code of the
  host; what it can do to the instance is call its public methods. \<open>listeners e\<close> are
  the calls the listeners make when \<open>e\<close> is emitted, in order. Like every call of the
  host in a history, a call that throws leaves the instance as it was at the throw, and
  the listeners return.
\<close>

datatype host_call =
    host_start_discovery "array_ref option"
  | host_ws_connect WSConnectOptions "array_ref option"
  | host_set_status string "bool option"
  | host_update_options PartialOptions
  | host_get_core

fun call_action :: "host_call \<Rightarrow> action" where
  "call_action (host_start_discovery a) = call_start_discovery a"
| "call_action (host_ws_connect w a) = call_ws_connect w a"
| "call_action (host_set_status m e) = call_set_status m e"
| "call_action (host_update_options p) = call_update_options p"
| "call_action host_get_core = call_get_core"

text \<open>\<^verbatim>\<open>this.emit(...)\<close> with the listeners run inside it.\<close>

definition emit_to :: "(event \<Rightarrow> host_call list) \<Rightarrow> event \<Rightarrow> RoonExtension \<Rightarrow> RoonExtension" where
  "emit_to listeners e s = run (map call_action (listeners e)) (emit e s)"

text \<open>
  The \<^verbatim>\<open>core_unpaired\<close> callback (lines 96-100) with the listeners run inside its
  \<^verbatim>\<open>emit\<close>: here the order of the three statements shows, because a listener can call
  \<^verbatim>\<open>get_core\<close> between the first and the second. \<open>core_unpaired\<close> above is the callback
  on an instance without listeners.
\<close>

definition core_unpaired_to :: "(event \<Rightarrow> host_call list) \<Rightarrow> RoonCore \<Rightarrow> RoonExtension \<Rightarrow> unit completion \<times> RoonExtension" where
  "core_unpaired_to listeners oldCore s =
     (let s1 = emit_to listeners (ev_core_unpaired oldCore) s in
      case this_core s1 of
        None \<Rightarrow> (Throws TypeError, s1)
      | Some t \<Rightarrow>
          (let s2 = s1\<lparr>promises := dispose t (promises s1)\<rparr>
           in (Returns (), s2\<lparr>this_core := Some new_TransientObject\<rparr>)))"


section \<open>The lifecycle guard\<close>

lemmas op_defs = start_discovery_def ws_connect_def provided_or_default_def instantiateCore_def
  initializeServices_def set_status_def update_options_def get_core_def ensureStarted_def
  getObject_def core_paired_def resolve_def subscribe_def emit_def core_unpaired_def dispose_def
  deliver_def new_TransientObject_def

lemma run_append: "run (as @ bs) s = run bs (run as s)"
  by (induction as arbitrary: s) simp_all

lemma started_step: "started s \<Longrightarrow> started (step a s)"
  by (cases a)
     (auto simp: started_def start_discovery_def ws_connect_def provided_or_default_def instantiateCore_def
        set_status_def update_options_def get_core_def ensureStarted_def getObject_def
        core_paired_def resolve_def subscribe_def emit_def core_unpaired_def deliver_def Let_def
      split: option.splits prod.splits completion.splits feed.splits if_splits)

lemma started_run: "started s \<Longrightarrow> started (run as s)"
  by (induction as arbitrary: s) (simp_all add: started_step)

lemma start_starts: "is_start a \<Longrightarrow> started (step a s)"
  by (cases a)
     (auto simp: started_def start_discovery_def ws_connect_def provided_or_default_def instantiateCore_def
        initializeServices_def Let_def
      split: option.splits prod.splits completion.splits)

lemma unstarted_step: "\<not> is_start a \<Longrightarrow> this_core s = None \<Longrightarrow> this_core (step a s) = None"
  by (cases a)
     (auto simp: set_status_def update_options_def get_core_def ensureStarted_def
        core_paired_def emit_def core_unpaired_def deliver_def Let_def
      split: option.splits prod.splits completion.splits feed.splits if_splits)

lemma unstarted_run:
  "\<forall>a \<in> set as. \<not> is_start a \<Longrightarrow> this_core s = None \<Longrightarrow> this_core (run as s) = None"
  by (induction as arbitrary: s) (simp_all add: unstarted_step)

lemma started_after_start:
  assumes "\<exists>a \<in> set as. is_start a"
  shows "started (run as s)"
proof -
  from assms obtain a where a: "a \<in> set as" "is_start a" by blast
  then obtain xs ys where "as = xs @ a # ys" by (meson split_list)
  then have "run as s = run ys (step a (run xs s))" by (simp add: run_append)
  then show ?thesis using a(2) by (simp add: started_run start_starts)
qed

lemma constructor_unstarted: "this_core (constructor opts h) = None"
  by (simp add: constructor_def Let_def)

lemma start_discovery_unstarted:
  "this_core s = None \<Longrightarrow> fst (start_discovery arg s) = Returns ()"
  by (simp add: start_discovery_def provided_or_default_def instantiateCore_def Let_def split: option.splits)

lemma ws_connect_unstarted:
  "this_core s = None \<Longrightarrow> fst (ws_connect w arg s) = Returns ()"
  by (simp add: ws_connect_def provided_or_default_def instantiateCore_def Let_def split: option.splits)

lemma start_discovery_started:
  "started s \<Longrightarrow> fst (start_discovery arg s) = Throws (Error already_started)"
  by (auto simp: started_def start_discovery_def provided_or_default_def instantiateCore_def Let_def split: option.splits)

lemma ws_connect_started:
  "started s \<Longrightarrow> fst (ws_connect w arg s) = Throws (Error already_started)"
  by (auto simp: started_def ws_connect_def provided_or_default_def instantiateCore_def Let_def split: option.splits)

section \<open>Configuration\<close>

text \<open>
  C3. Whatever options the constructor is given: if \<^verbatim>\<open>subscribe_outputs\<close> or
  \<^verbatim>\<open>subscribe_zones\<close> is truthy, the instance's configuration has \<^verbatim>\<open>RoonApiTransport\<close>
  set to \<^verbatim>\<open>'required'\<close>, whatever value was supplied for it; if neither is, the
  supplied \<^verbatim>\<open>RoonApiTransport\<close> is kept.
\<close>

theorem constructor_forces_transport:
  "(truthy (subscribe_outputs opts) \<or> truthy (subscribe_zones opts) \<longrightarrow>
      RoonApiTransport (this_options (constructor opts h)) = Some required) \<and>
   (\<not> (truthy (subscribe_outputs opts) \<or> truthy (subscribe_zones opts)) \<longrightarrow>
      RoonApiTransport (this_options (constructor opts h)) = RoonApiTransport opts)"
  by (simp add: constructor_def Let_def)

theorem constructor_forces_transport_witness:
  "truthy (subscribe_outputs (example_options\<lparr>subscribe_outputs := Some True\<rparr>)) \<and>
   RoonApiTransport (this_options (constructor (example_options\<lparr>subscribe_outputs := Some True\<rparr>) example_arrays)) = Some required \<and>
   \<not> truthy (subscribe_outputs (example_options\<lparr>RoonApiTransport := Some optional\<rparr>)) \<and>
   \<not> truthy (subscribe_zones (example_options\<lparr>RoonApiTransport := Some optional\<rparr>)) \<and>
   RoonApiTransport (this_options (constructor (example_options\<lparr>RoonApiTransport := Some optional\<rparr>) example_arrays)) = Some optional"
  using constructor_forces_transport [of "example_options\<lparr>subscribe_outputs := Some True\<rparr>" example_arrays]
    constructor_forces_transport [of "example_options\<lparr>RoonApiTransport := Some optional\<rparr>" example_arrays]
  by (simp add: example_options_def)

section \<open>Starting once\<close>

text \<open>
  C5. On an instance whose history since construction has no \<^verbatim>\<open>start_discovery\<close> and no
  \<^verbatim>\<open>ws_connect\<close>, a call of either returns normally. On an instance whose history has
  one, a call of either throws the "already been started" error: the two share the guard
  of \<^verbatim>\<open>instantiateCore\<close>.
\<close>

theorem one_shot_start:
  "((\<forall>a \<in> set hist. \<not> is_start a) \<longrightarrow>
      fst (start_discovery arg (run hist (constructor opts h))) = Returns () \<and>
      fst (ws_connect w arg (run hist (constructor opts h))) = Returns ()) \<and>
   ((\<exists>a \<in> set hist. is_start a) \<longrightarrow>
      fst (start_discovery arg (run hist (constructor opts h))) = Throws (Error already_started) \<and>
      fst (ws_connect w arg (run hist (constructor opts h))) = Throws (Error already_started))"
proof (intro conjI impI)
  assume "\<forall>a \<in> set hist. \<not> is_start a"
  then have u: "this_core (run hist (constructor opts h)) = None"
    by (simp add: unstarted_run constructor_unstarted)
  show "fst (start_discovery arg (run hist (constructor opts h))) = Returns ()"
    using u by (rule start_discovery_unstarted)
  show "fst (ws_connect w arg (run hist (constructor opts h))) = Returns ()"
    using u by (rule ws_connect_unstarted)
next
  assume "\<exists>a \<in> set hist. is_start a"
  then have st: "started (run hist (constructor opts h))"
    by (rule started_after_start)
  show "fst (start_discovery arg (run hist (constructor opts h))) = Throws (Error already_started)"
    using st by (rule start_discovery_started)
  show "fst (ws_connect w arg (run hist (constructor opts h))) = Throws (Error already_started)"
    using st by (rule ws_connect_started)
qed

theorem one_shot_start_witness:
  "fst (start_discovery None (run [call_set_status ''hello'' None] (constructor example_options example_arrays))) = Returns () \<and>
   fst (ws_connect ''ws'' None (run [call_set_status ''hello'' None] (constructor example_options example_arrays))) = Returns () \<and>
   fst (start_discovery None (run [call_start_discovery None] (constructor example_options example_arrays))) = Throws (Error already_started) \<and>
   fst (ws_connect ''ws'' None (run [call_start_discovery None] (constructor example_options example_arrays))) = Throws (Error already_started)"
  using one_shot_start [of "[call_set_status ''hello'' None]" None example_options example_arrays "''ws''"]
    one_shot_start [of "[call_start_discovery None]" None example_options example_arrays "''ws''"]
  by simp

section \<open>Changing options\<close>

lemma update_options_started: "started s \<Longrightarrow> update_options p s = (Throws (Error cant_update), s)"
  by (auto simp: started_def update_options_def split: option.splits)

lemma update_options_unstarted:
  "this_core s = None \<Longrightarrow>
   update_options p s = (Returns (), s\<lparr>this_options := Object_assign (this_options s) p\<rparr>)"
  by (simp add: update_options_def)

text \<open>
  C6. On an instance whose history has a \<^verbatim>\<open>start_discovery\<close> or \<^verbatim>\<open>ws_connect\<close>,
  \<^verbatim>\<open>update_options\<close> throws and leaves the instance, so also its configuration, as it
  was. On an instance whose history has neither, it returns and changes the configuration
  only: a property the argument has takes the argument's value, a property it lacks keeps
  its old value.
\<close>

theorem update_options_before_and_after_start:
  "((\<exists>a \<in> set hist. is_start a) \<longrightarrow>
      update_options p (run hist (constructor opts h)) =
        (Throws (Error cant_update), run hist (constructor opts h))) \<and>
   ((\<forall>a \<in> set hist. \<not> is_start a) \<longrightarrow>
      (let s = run hist (constructor opts h); s' = snd (update_options p s); old = this_options s; new = this_options s'
       in fst (update_options p s) = Returns () \<and>
          s' = s\<lparr>this_options := new\<rparr> \<and>
          description new = (case p_description p of Some v \<Rightarrow> v | None \<Rightarrow> description old) \<and>
          log_level new = (case p_log_level p of Some v \<Rightarrow> v | None \<Rightarrow> log_level old) \<and>
          RoonApiBrowse new = (case p_RoonApiBrowse p of Some v \<Rightarrow> v | None \<Rightarrow> RoonApiBrowse old) \<and>
          RoonApiImage new = (case p_RoonApiImage p of Some v \<Rightarrow> v | None \<Rightarrow> RoonApiImage old) \<and>
          RoonApiTransport new = (case p_RoonApiTransport p of Some v \<Rightarrow> v | None \<Rightarrow> RoonApiTransport old) \<and>
          subscribe_outputs new = (case p_subscribe_outputs p of Some v \<Rightarrow> v | None \<Rightarrow> subscribe_outputs old) \<and>
          subscribe_zones new = (case p_subscribe_zones p of Some v \<Rightarrow> v | None \<Rightarrow> subscribe_zones old)))"
proof (intro conjI impI)
  assume "\<exists>a \<in> set hist. is_start a"
  then have "started (run hist (constructor opts h))" by (rule started_after_start)
  then show "update_options p (run hist (constructor opts h)) =
        (Throws (Error cant_update), run hist (constructor opts h))"
    by (rule update_options_started)
next
  assume "\<forall>a \<in> set hist. \<not> is_start a"
  then have "this_core (run hist (constructor opts h)) = None"
    by (simp add: unstarted_run constructor_unstarted)
  then have "update_options p (run hist (constructor opts h)) =
      (Returns (), (run hist (constructor opts h))\<lparr>this_options := Object_assign (this_options (run hist (constructor opts h))) p\<rparr>)"
    by (rule update_options_unstarted)
  then show "let s = run hist (constructor opts h); s' = snd (update_options p s); old = this_options s; new = this_options s'
       in fst (update_options p s) = Returns () \<and>
          s' = s\<lparr>this_options := new\<rparr> \<and>
          description new = (case p_description p of Some v \<Rightarrow> v | None \<Rightarrow> description old) \<and>
          log_level new = (case p_log_level p of Some v \<Rightarrow> v | None \<Rightarrow> log_level old) \<and>
          RoonApiBrowse new = (case p_RoonApiBrowse p of Some v \<Rightarrow> v | None \<Rightarrow> RoonApiBrowse old) \<and>
          RoonApiImage new = (case p_RoonApiImage p of Some v \<Rightarrow> v | None \<Rightarrow> RoonApiImage old) \<and>
          RoonApiTransport new = (case p_RoonApiTransport p of Some v \<Rightarrow> v | None \<Rightarrow> RoonApiTransport old) \<and>
          subscribe_outputs new = (case p_subscribe_outputs p of Some v \<Rightarrow> v | None \<Rightarrow> subscribe_outputs old) \<and>
          subscribe_zones new = (case p_subscribe_zones p of Some v \<Rightarrow> v | None \<Rightarrow> subscribe_zones old)"
    by (simp add: Let_def Object_assign_def assign_property_def)
qed

theorem update_options_before_and_after_start_witness:
  "update_options subscribe_zones_only (run [call_ws_connect ''ws'' None] (constructor example_options example_arrays)) =
     (Throws (Error cant_update), run [call_ws_connect ''ws'' None] (constructor example_options example_arrays)) \<and>
   fst (update_options subscribe_zones_only (run [call_get_core] (constructor example_options example_arrays))) = Returns () \<and>
   subscribe_zones (this_options (snd (update_options subscribe_zones_only (run [call_get_core] (constructor example_options example_arrays))))) = Some True \<and>
   description (this_options (snd (update_options subscribe_zones_only (run [call_get_core] (constructor example_options example_arrays))))) = Some ''ext''"
  using update_options_before_and_after_start [of "[call_ws_connect ''ws'' None]" subscribe_zones_only example_options example_arrays]
    update_options_before_and_after_start [of "[call_get_core]" subscribe_zones_only example_options example_arrays]
  by (simp add: Let_def subscribe_zones_only_def get_core_def ensureStarted_def constructor_def example_options_def)

section \<open>Waiting for the core\<close>

text \<open>
  C7. On an instance whose history has no \<^verbatim>\<open>start_discovery\<close> and no \<^verbatim>\<open>ws_connect\<close>,
  \<^verbatim>\<open>get_core\<close> throws the "hasn't been started yet" error at once: no promise is handed
  out and the instance is unchanged.
\<close>

theorem get_core_before_start:
  "(\<forall>a \<in> set hist. \<not> is_start a) \<longrightarrow>
     get_core (run hist (constructor opts h)) = (Throws (Error not_started), run hist (constructor opts h))"
proof
  assume "\<forall>a \<in> set hist. \<not> is_start a"
  then have "this_core (run hist (constructor opts h)) = None"
    by (simp add: unstarted_run constructor_unstarted)
  then show "get_core (run hist (constructor opts h)) = (Throws (Error not_started), run hist (constructor opts h))"
    by (simp add: get_core_def ensureStarted_def)
qed

theorem get_core_before_start_witness:
  "get_core (run [call_update_options subscribe_zones_only, call_set_status ''up'' (Some False)] (constructor example_options example_arrays)) =
     (Throws (Error not_started),
      run [call_update_options subscribe_zones_only, call_set_status ''up'' (Some False)] (constructor example_options example_arrays)) \<and>
   promises (snd (get_core (run [call_update_options subscribe_zones_only, call_set_status ''up'' (Some False)] (constructor example_options example_arrays)))) = []"
  using get_core_before_start [of "[call_update_options subscribe_zones_only, call_set_status ''up'' (Some False)]" example_options example_arrays]
  by (simp add: set_status_def update_options_def constructor_def Let_def)

subsection \<open>The slot and its promises\<close>

lemma length_wake: "length (wake c ws ps) = length ps"
  by (induction ws arbitrary: ps) simp_all

lemma wake_nth:
  "p < length ps \<Longrightarrow> wake c ws ps ! p = (if p \<in> set ws then Resolved c else ps ! p)"
proof (induction ws arbitrary: ps)
  case Nil
  then show ?case by simp
next
  case (Cons w ws)
  then show ?case by (auto simp: nth_list_update)
qed

lemma quiet_constructor: "quiet (constructor opts h)"
  by (simp add: quiet_def constructor_def Let_def)

lemma quiet_step:
  assumes "quiet s" "\<not> is_pairing a"
  shows "quiet (step a s)"
proof (cases a)
  case call_get_core
  show ?thesis
  proof (cases "this_core s")
    case None
    then show ?thesis using assms(1) call_get_core by (simp add: get_core_def ensureStarted_def)
  next
    case (Some t)
    then show ?thesis using assms(1) call_get_core
      by (auto simp: quiet_def get_core_def ensureStarted_def getObject_def nth_append less_Suc_eq)
  qed
qed (use assms in \<open>auto simp: quiet_def op_defs Let_def split: option.splits feed.splits prod.splits\<close>)

lemma quiet_run: "quiet s \<Longrightarrow> \<forall>a \<in> set as. \<not> is_pairing a \<Longrightarrow> quiet (run as s)"
  by (induction as arbitrary: s) (simp_all add: quiet_step)

lemma quiet_waiting_since: "quiet s \<Longrightarrow> waiting_since (length (promises s)) s"
  by (auto simp: quiet_def waiting_since_def split: option.splits)

lemma waiting_since_step:
  assumes "waiting_since n s" "\<not> is_pairing a" "\<not> is_unpairing a"
  shows "waiting_since n (step a s)"
proof (cases a)
  case call_get_core
  show ?thesis
  proof (cases "this_core s")
    case None
    then show ?thesis using assms(1) call_get_core by (simp add: get_core_def ensureStarted_def)
  next
    case (Some t)
    then show ?thesis using assms(1) call_get_core
      by (auto simp: waiting_since_def get_core_def ensureStarted_def getObject_def less_Suc_eq)
  qed
qed (use assms in \<open>auto simp: waiting_since_def op_defs Let_def split: option.splits feed.splits prod.splits\<close>)

lemma waiting_since_run:
  "waiting_since n s \<Longrightarrow> \<forall>a \<in> set as. \<not> is_pairing a \<and> \<not> is_unpairing a \<Longrightarrow> waiting_since n (run as s)"
  by (induction as arbitrary: s) (simp_all add: waiting_since_step)





lemma paired_with_step:
  "paired_with c s \<Longrightarrow> \<not> is_unpairing a \<Longrightarrow>
   paired_with c (step a s) \<and> (\<exists>ext. promises (step a s) = promises s @ ext)"
  by (cases a) (auto simp: paired_with_def op_defs Let_def split: option.splits feed.splits prod.splits if_splits)

lemma paired_with_run:
  "paired_with c s \<Longrightarrow> \<forall>a \<in> set as. \<not> is_unpairing a \<Longrightarrow>
   paired_with c (run as s) \<and> (\<exists>ext. promises (run as s) = promises s @ ext)"
proof (induction as arbitrary: s)
  case Nil
  then show ?case by simp
next
  case (Cons a as)
  then have 1: "paired_with c (step a s)" and "\<exists>ext. promises (step a s) = promises s @ ext"
    using paired_with_step [of c s a] by auto
  then obtain e1 where e1: "promises (step a s) = promises s @ e1" by blast
  from Cons 1 have 2: "paired_with c (run as (step a s))"
    and "\<exists>ext. promises (run as (step a s)) = promises (step a s) @ ext" by auto
  then obtain e2 where "promises (run as (step a s)) = promises (step a s) @ e2" by blast
  with e1 2 show ?case by simp
qed

lemma get_core_empty_slot:
  "empty_slot s \<Longrightarrow>
   fst (get_core s) = Returns (length (promises s)) \<and>
   promises (snd (get_core s)) = promises s @ [Pending] \<and> empty_slot (snd (get_core s))"
  by (auto simp: empty_slot_def get_core_def ensureStarted_def getObject_def split: option.splits)

lemma get_core_paired_with:
  "paired_with c s \<Longrightarrow>
   fst (get_core s) = Returns (length (promises s)) \<and>
   promises (snd (get_core s)) = promises s @ [Resolved c]"
  by (auto simp: paired_with_def get_core_def ensureStarted_def getObject_def split: option.splits)

lemma core_paired_empty_slot:
  assumes "empty_slot s"
  shows "paired_with c (snd (core_paired c s))"
    and "length (promises (snd (core_paired c s))) = length (promises s)"
proof -
  from assms obtain t where t: "this_core s = Some t" "held t = None"
    by (auto simp: empty_slot_def split: option.splits)
  have ps: "promises (snd (core_paired c s)) = wake c (waiters t) (promises s)"
    using t by (simp add: core_paired_def resolve_def subscribe_def emit_def Let_def split: prod.splits)
  show "paired_with c (snd (core_paired c s))"
    using t by (simp add: paired_with_def core_paired_def resolve_def subscribe_def emit_def Let_def split: prod.splits)
  show "length (promises (snd (core_paired c s))) = length (promises s)"
    by (simp add: ps length_wake)
qed

lemma core_paired_waiting_since:
  assumes "waiting_since n s" "started s" "n \<le> p" "p < length (promises s)"
  shows "promises (snd (core_paired c s)) ! p = Resolved c"
proof -
  from assms(1,2) obtain t where t: "this_core s = Some t" "held t = None"
      "{n..<length (promises s)} \<subseteq> set (waiters t)"
    by (auto simp: waiting_since_def started_def split: option.splits)
  have ps: "promises (snd (core_paired c s)) = wake c (waiters t) (promises s)"
    using t by (simp add: core_paired_def resolve_def subscribe_def emit_def Let_def split: prod.splits)
  have "p \<in> set (waiters t)" using t(3) assms(3,4) by auto
  then show ?thesis using assms(4) by (simp add: ps wake_nth)
qed

text \<open>
  C1 (amended). Take an instance whose history has a \<^verbatim>\<open>start_discovery\<close> or
  \<^verbatim>\<open>ws_connect\<close> and no pairing event. A \<^verbatim>\<open>get_core\<close> call there returns a new promise
  that is pending, and every promise handed out so far is pending. Once \<^verbatim>\<open>core_paired\<close>
  fires with \<open>C1\<close>, every promise handed out since the last \<^verbatim>\<open>core_unpaired\<close> (every
  promise, when none has fired: \<open>pre = []\<close>) is resolved with \<open>C1\<close>. After any further
  history without an unpairing event the promises are as the pairing left them, and a
  \<^verbatim>\<open>get_core\<close> call returns a promise resolved with \<open>C1\<close>.
\<close>

theorem get_core_waits_for_pairing:
  assumes "\<exists>a \<in> set hist. is_start a"
    and "\<forall>a \<in> set hist. \<not> is_pairing a"
  shows "let s = run hist (constructor opts h); s1 = snd (core_paired C1 s) in
    fst (get_core s) = Returns (length (promises s)) \<and>
    promises (snd (get_core s)) = promises s @ [Pending] \<and>
    (\<forall>p < length (promises s). promises s ! p = Pending) \<and>
    (\<forall>pre mid. hist = pre @ mid \<and> (\<forall>a \<in> set mid. \<not> is_unpairing a) \<longrightarrow>
       (\<forall>p. length (promises (run pre (constructor opts h))) \<le> p \<and> p < length (promises s) \<longrightarrow>
          promises s1 ! p = Resolved C1)) \<and>
    (\<forall>post. (\<forall>a \<in> set post. \<not> is_unpairing a) \<longrightarrow>
       (let t = run post s1 in
          (\<forall>p < length (promises s1). promises t ! p = promises s1 ! p) \<and>
          fst (get_core t) = Returns (length (promises t)) \<and>
          promises (snd (get_core t)) = promises t @ [Resolved C1]))"
proof -
  define s where "s = run hist (constructor opts h)"
  define s1 where "s1 = snd (core_paired C1 s)"
  have st: "started s" unfolding s_def using assms(1) by (rule started_after_start)
  have q: "quiet s" unfolding s_def using assms(2) by (simp add: quiet_run quiet_constructor)
  then have es: "empty_slot s" using st by (auto simp: quiet_def empty_slot_def started_def split: option.splits)
  have pend: "\<forall>p < length (promises s). promises s ! p = Pending"
    using q by (simp add: quiet_def)
  have pw: "paired_with C1 s1"
    unfolding s1_def using es by (rule core_paired_empty_slot)
  have since: "promises s1 ! p = Resolved C1"
    if split: "hist = pre @ mid" and mid: "\<forall>a \<in> set mid. \<not> is_unpairing a"
      and p: "length (promises (run pre (constructor opts h))) \<le> p" "p < length (promises s)"
    for pre mid p
  proof -
    have "quiet (run pre (constructor opts h))"
      using assms(2) split by (simp add: quiet_run quiet_constructor)
    then have "waiting_since (length (promises (run pre (constructor opts h)))) (run pre (constructor opts h))"
      by (rule quiet_waiting_since)
    moreover have "\<forall>a \<in> set mid. \<not> is_pairing a \<and> \<not> is_unpairing a"
      using assms(2) split mid by simp
    ultimately have "waiting_since (length (promises (run pre (constructor opts h)))) (run mid (run pre (constructor opts h)))"
      by (rule waiting_since_run)
    then have "waiting_since (length (promises (run pre (constructor opts h)))) s"
      by (simp add: s_def split run_append)
    then show ?thesis unfolding s1_def using st p by (rule core_paired_waiting_since)
  qed
  have later: "(\<forall>p < length (promises s1). promises (run post s1) ! p = promises s1 ! p) \<and>
          fst (get_core (run post s1)) = Returns (length (promises (run post s1))) \<and>
          promises (snd (get_core (run post s1))) = promises (run post s1) @ [Resolved C1]"
    if np: "\<forall>a \<in> set post. \<not> is_unpairing a" for post
  proof -
    from paired_with_run [OF pw np] obtain ext where
      p: "paired_with C1 (run post s1)" and e: "promises (run post s1) = promises s1 @ ext" by blast
    have "\<forall>p < length (promises s1). promises (run post s1) ! p = promises s1 ! p"
      by (simp add: e nth_append)
    then show ?thesis using get_core_paired_with [OF p] by simp
  qed
  show ?thesis
    unfolding Let_def s_def [symmetric] s1_def [symmetric]
    using get_core_empty_slot [OF es] pend since later by blast
qed

theorem get_core_waits_for_pairing_witness:
  "promises (run [call_start_discovery None, call_get_core, fire_core_unpaired (RoonCore 3 True), call_get_core, call_get_core]
      (constructor example_options example_arrays)) = [Pending, Pending, Pending] \<and>
   promises (snd (core_paired (RoonCore 7 True)
      (run [call_start_discovery None, call_get_core, fire_core_unpaired (RoonCore 3 True), call_get_core, call_get_core]
        (constructor example_options example_arrays)))) ! 1 = Resolved (RoonCore 7 True) \<and>
   promises (snd (core_paired (RoonCore 7 True)
      (run [call_start_discovery None, call_get_core, fire_core_unpaired (RoonCore 3 True), call_get_core, call_get_core]
        (constructor example_options example_arrays)))) ! 2 = Resolved (RoonCore 7 True) \<and>
   promises (snd (get_core (run [call_set_status ''paired'' None] (snd (core_paired (RoonCore 7 True)
      (run [call_start_discovery None, call_get_core, fire_core_unpaired (RoonCore 3 True), call_get_core, call_get_core]
        (constructor example_options example_arrays))))))) =
     promises (run [call_set_status ''paired'' None] (snd (core_paired (RoonCore 7 True)
      (run [call_start_discovery None, call_get_core, fire_core_unpaired (RoonCore 3 True), call_get_core, call_get_core]
        (constructor example_options example_arrays))))) @ [Resolved (RoonCore 7 True)]"
proof -
  let ?pre = "[call_start_discovery None, call_get_core, fire_core_unpaired (RoonCore 3 True)]"
  let ?mid = "[call_get_core, call_get_core]"
  let ?hist = "[call_start_discovery None, call_get_core, fire_core_unpaired (RoonCore 3 True), call_get_core, call_get_core]"
  let ?init = "constructor example_options example_arrays"
  let ?s = "run ?hist ?init"
  let ?s1 = "snd (core_paired (RoonCore 7 True) ?s)"
  let ?post = "[call_set_status ''paired'' None]"
  have 1: "\<exists>a \<in> set ?hist. is_start a" by simp
  have 2: "\<forall>a \<in> set ?hist. \<not> is_pairing a" by simp
  have 3: "\<forall>a \<in> set ?post. \<not> is_unpairing a" by simp
  have 4: "?hist = ?pre @ ?mid \<and> (\<forall>a \<in> set ?mid. \<not> is_unpairing a)" by simp
  have ps: "promises ?s = [Pending, Pending, Pending]"
    by (simp add: op_defs constructor_def Let_def)
  have pp: "length (promises (run ?pre ?init)) = 1"
    by (simp add: op_defs constructor_def Let_def)
  note inst = get_core_waits_for_pairing [OF 1 2, of example_options example_arrays "RoonCore 7 True", unfolded Let_def]
  from inst 4 have b: "\<forall>p. length (promises (run ?pre ?init)) \<le> p \<and> p < length (promises ?s) \<longrightarrow>
      promises ?s1 ! p = Resolved (RoonCore 7 True)"
    by blast
  from inst 3 have c': "promises (snd (get_core (run ?post ?s1))) = promises (run ?post ?s1) @ [Resolved (RoonCore 7 True)]"
    by blast
  have len: "length (promises ?s) = 3" by (simp only: ps) simp
  have b1: "promises ?s1 ! 1 = Resolved (RoonCore 7 True)" using b unfolding pp len by simp
  have b2: "promises ?s1 ! 2 = Resolved (RoonCore 7 True)" using b unfolding pp len by simp
  from ps b1 b2 c' show ?thesis by blast
qed

text \<open>
  C1 as stated fails when a \<^verbatim>\<open>core_unpaired\<close> has fired before the first pairing: the
  promise of a \<^verbatim>\<open>get_core\<close> call made before it waits on the discarded slot, and the
  pairing with another core leaves it pending.
\<close>

theorem unpaired_waiter_stays_pending:
  "fst (get_core (run [call_start_discovery None] (constructor example_options example_arrays))) = Returns 0 \<and>
   promises (run [call_start_discovery None, call_get_core, fire_core_unpaired (RoonCore 3 True)]
      (constructor example_options example_arrays)) = [Pending] \<and>
   promises (snd (core_paired (RoonCore 7 True)
      (run [call_start_discovery None, call_get_core, fire_core_unpaired (RoonCore 3 True)]
        (constructor example_options example_arrays)))) = [Pending] \<and>
   promises (snd (core_paired (RoonCore 7 True)
      (run [call_start_discovery None, call_get_core, fire_core_unpaired (RoonCore 3 True)]
        (constructor example_options example_arrays)))) ! 0 \<noteq> Resolved (RoonCore 7 True)"
  by (simp add: op_defs constructor_def Let_def example_options_def)

section \<open>Unpairing\<close>

lemma core_unpaired_started:
  "started s \<Longrightarrow>
   core_unpaired oldCore s =
     (Returns (), (emit (ev_core_unpaired oldCore) s)\<lparr>this_core := Some new_TransientObject\<rparr>)"
  by (auto simp: started_def core_unpaired_def emit_def dispose_def Let_def split: option.splits)

lemma core_unpaired_no_listeners: "core_unpaired_to (\<lambda>e. []) oldCore s = core_unpaired oldCore s"
  by (simp add: core_unpaired_to_def core_unpaired_def emit_to_def)


lemma emitted_step_call: "emitted (step (call_action c) s) = emitted s"
  by (cases c) (auto simp: op_defs Let_def split: option.splits prod.splits)

lemma emitted_run_calls: "emitted (run (map call_action cs) s) = emitted s"
  by (induction cs arbitrary: s) (simp_all add: emitted_step_call)

lemma started_emit: "started s \<Longrightarrow> started (emit e s)"
  by (simp add: started_def emit_def)

lemma core_unpaired_to_started:
  assumes "started s"
  shows "core_unpaired_to listeners oldCore s =
     (Returns (), (run (map call_action (listeners (ev_core_unpaired oldCore))) (emit (ev_core_unpaired oldCore) s))
        \<lparr>this_core := Some new_TransientObject\<rparr>)"
proof -
  have "started (run (map call_action (listeners (ev_core_unpaired oldCore))) (emit (ev_core_unpaired oldCore) s))"
    using assms by (simp add: started_run started_emit)
  then show ?thesis
    by (auto simp: core_unpaired_to_def emit_to_def started_def dispose_def Let_def split: option.splits)
qed



lemma step_call_emitted:
  "step (call_action c) (s\<lparr>emitted := x\<rparr>) = (step (call_action c) s)\<lparr>emitted := x\<rparr>"
  by (cases c) (auto simp: op_defs Let_def split: option.splits prod.splits)

lemma run_calls_emitted:
  "run (map call_action cs) (s\<lparr>emitted := x\<rparr>) = (run (map call_action cs) s)\<lparr>emitted := x\<rparr>"
  by (induction cs arbitrary: s) (simp_all add: step_call_emitted)

text \<open>
  What the listeners do inside \<^verbatim>\<open>emit\<close> leaves the instance as the same calls made just
  before the callback would: in a history the calls of listeners are calls like any other.
\<close>

lemma listeners_as_calls:
  assumes "started s"
  shows "core_unpaired_to listeners oldCore s =
    core_unpaired oldCore (run (map call_action (listeners (ev_core_unpaired oldCore))) s)"
proof -
  let ?cs = "map call_action (listeners (ev_core_unpaired oldCore))"
  have st: "started (run ?cs s)" using assms by (rule started_run)
  have "run ?cs (emit (ev_core_unpaired oldCore) s) = emit (ev_core_unpaired oldCore) (run ?cs s)"
    by (simp add: emit_def run_calls_emitted emitted_run_calls)
  then show ?thesis
    using st by (simp add: core_unpaired_to_started [OF assms] core_unpaired_started [OF st])
qed



section \<open>Status\<close>

text \<open>
  C8. Every call \<^verbatim>\<open>set_status(message, is_error)\<close> returns normally and hands exactly
  \<open>message\<close> and the flag (false when omitted) to the status helper, whatever the
  configuration. If \<^verbatim>\<open>log_level\<close> is not \<^verbatim>\<open>'none'\<close> it writes exactly one line to the
  console, with \<^verbatim>\<open>console.error\<close> when the flag is true and with \<^verbatim>\<open>console.log\<close>
  otherwise; if \<^verbatim>\<open>log_level\<close> is \<^verbatim>\<open>'none'\<close> it writes none.
\<close>

theorem set_status_forwards:
  "fst (set_status message arg s) = Returns () \<and>
   status_calls (snd (set_status message arg s)) = status_calls s @ [(message, arg = Some True)] \<and>
   (log_level (this_options s) \<noteq> Some log_none \<longrightarrow>
      console (snd (set_status message arg s)) =
        console s @ [if arg = Some True then (console_error, ''Extension Error: '' @ message)
                     else (console_log, ''Extension Status: '' @ message)]) \<and>
   (log_level (this_options s) = Some log_none \<longrightarrow>
      console (snd (set_status message arg s)) = console s)"
  by (cases arg) (simp_all add: set_status_def Let_def)

theorem set_status_forwards_witness:
  "status_calls (snd (set_status ''ready'' (Some True) (constructor example_options example_arrays))) = [(''ready'', True)] \<and>
   console (snd (set_status ''ready'' (Some True) (constructor example_options example_arrays))) = [(console_error, ''Extension Error: ready'')] \<and>
   status_calls (snd (set_status ''ready'' None (constructor (example_options\<lparr>log_level := Some log_none\<rparr>) example_arrays))) = [(''ready'', False)] \<and>
   console (snd (set_status ''ready'' None (constructor (example_options\<lparr>log_level := Some log_none\<rparr>) example_arrays))) = []"
  using set_status_forwards [of "''ready''" "Some True" "constructor example_options example_arrays"]
    set_status_forwards [of "''ready''" None "constructor (example_options\<lparr>log_level := Some log_none\<rparr>) example_arrays"]
  by (simp add: constructor_def Let_def example_options_def)

section \<open>Subscriptions\<close>

lemma subscriptions_step: "\<exists>ext. subscriptions (step a s) = subscriptions s @ ext"
  by (cases a) (auto simp: op_defs Let_def split: option.splits feed.splits prod.splits)

lemma subscriptions_run: "\<exists>ext. subscriptions (run as s) = subscriptions s @ ext"
proof (induction as arbitrary: s)
  case Nil
  then show ?case by simp
next
  case (Cons a as)
  obtain e1 where e1: "subscriptions (step a s) = subscriptions s @ e1"
    using subscriptions_step by blast
  obtain e2 where "subscriptions (run as (step a s)) = subscriptions (step a s) @ e2"
    using Cons by blast
  with e1 show ?case by simp
qed

lemma subscription_kept:
  assumes "k < length (subscriptions s)"
  shows "k < length (subscriptions (run as s)) \<and> subscriptions (run as s) ! k = subscriptions s ! k"
proof -
  obtain ext where "subscriptions (run as s) = subscriptions s @ ext"
    using subscriptions_run by blast
  then show ?thesis using assms by (simp add: nth_append)
qed

lemma deliver_zones:
  "k < length (subscriptions s) \<Longrightarrow> subscriptions s ! k = (zones_feed, c) \<Longrightarrow>
   deliver k r b s = s\<lparr>emitted := emitted s @ [ev_subscribe_zones c r b]\<rparr>"
  by (simp add: deliver_def emit_def)

lemma deliver_outputs:
  "k < length (subscriptions s) \<Longrightarrow> subscriptions s ! k = (outputs_feed, c) \<Longrightarrow>
   deliver k r b s = s\<lparr>emitted := emitted s @ [ev_subscribe_outputs c r b]\<rparr>"
  by (simp add: deliver_def emit_def)

lemma deliveries_zones:
  "k < length (subscriptions s) \<Longrightarrow> subscriptions s ! k = (zones_feed, c) \<Longrightarrow>
   run (map (\<lambda>(r, b). deliver_update k r b) us) s =
     s\<lparr>emitted := emitted s @ map (\<lambda>(r, b). ev_subscribe_zones c r b) us\<rparr>"
proof (induction us arbitrary: s)
  case Nil
  then show ?case by simp
next
  case (Cons u us)
  obtain r b where u: "u = (r, b)" by (cases u)
  let ?s = "s\<lparr>emitted := emitted s @ [ev_subscribe_zones c r b]\<rparr>"
  have "run (map (\<lambda>(r, b). deliver_update k r b) (u # us)) s = run (map (\<lambda>(r, b). deliver_update k r b) us) ?s"
    using Cons.prems by (simp add: u deliver_zones)
  also have "\<dots> = ?s\<lparr>emitted := emitted ?s @ map (\<lambda>(r, b). ev_subscribe_zones c r b) us\<rparr>"
    using Cons.prems by (intro Cons.IH) simp_all
  finally show ?case by (simp add: u)
qed

lemma deliveries_outputs:
  "k < length (subscriptions s) \<Longrightarrow> subscriptions s ! k = (outputs_feed, c) \<Longrightarrow>
   run (map (\<lambda>(r, b). deliver_update k r b) us) s =
     s\<lparr>emitted := emitted s @ map (\<lambda>(r, b). ev_subscribe_outputs c r b) us\<rparr>"
proof (induction us arbitrary: s)
  case Nil
  then show ?case by simp
next
  case (Cons u us)
  obtain r b where u: "u = (r, b)" by (cases u)
  let ?s = "s\<lparr>emitted := emitted s @ [ev_subscribe_outputs c r b]\<rparr>"
  have "run (map (\<lambda>(r, b). deliver_update k r b) (u # us)) s = run (map (\<lambda>(r, b). deliver_update k r b) us) ?s"
    using Cons.prems by (simp add: u deliver_outputs)
  also have "\<dots> = ?s\<lparr>emitted := emitted ?s @ map (\<lambda>(r, b). ev_subscribe_outputs c r b) us\<rparr>"
    using Cons.prems by (intro Cons.IH) simp_all
  finally show ?case by (simp add: u)
qed

lemma core_paired_subscriptions:
  assumes "started s" "has_transport C"
  shows "fst (core_paired C s) = Returns ()"
    and "subscriptions (snd (core_paired C s)) =
      subscriptions s @ (if truthy (subscribe_outputs (this_options s)) then [(outputs_feed, C)] else [])
        @ (if truthy (subscribe_zones (this_options s)) then [(zones_feed, C)] else [])"
    and "emitted (snd (core_paired C s)) = emitted s @ [ev_core_paired C]"
  using assms
  by (auto simp: started_def core_paired_def resolve_def subscribe_def emit_def Let_def
      split: option.splits prod.splits)

text \<open>
  C9. On a started instance, let \<^verbatim>\<open>core_paired\<close> fire with a core \<open>C\<close> that has the
  transport sub-service. The callback returns normally. If \<^verbatim>\<open>subscribe_zones\<close> is set, the
  pairing registers exactly one zones callback, and it holds \<open>C\<close>; at any later time each
  update \<open>(r, b)\<close> delivered on it emits exactly one \<^verbatim>\<open>subscribe_zones\<close> event with
  \<open>C\<close>, \<open>r\<close> and \<open>b\<close> and changes nothing else, so a run of updates gives the events
  in delivery order. The same holds for \<^verbatim>\<open>subscribe_outputs\<close>.
\<close>

theorem subscription_updates_re_emitted:
  assumes "started s" and "has_transport C"
  shows "let s1 = snd (core_paired C s);
             n = length (subscriptions s);
             kz = (if truthy (subscribe_outputs (this_options s)) then Suc n else n) in
    fst (core_paired C s) = Returns () \<and>
    (truthy (subscribe_zones (this_options s)) \<longrightarrow>
       length (filter (\<lambda>x. x = (zones_feed, C)) (drop n (subscriptions s1))) = 1 \<and>
       kz < length (subscriptions s1) \<and> subscriptions s1 ! kz = (zones_feed, C) \<and>
       (\<forall>hist r b. deliver kz r b (run hist s1) =
          (run hist s1)\<lparr>emitted := emitted (run hist s1) @ [ev_subscribe_zones C r b]\<rparr>) \<and>
       (\<forall>us. emitted (run (map (\<lambda>(r, b). deliver_update kz r b) us) s1) =
          emitted s1 @ map (\<lambda>(r, b). ev_subscribe_zones C r b) us)) \<and>
    (truthy (subscribe_outputs (this_options s)) \<longrightarrow>
       length (filter (\<lambda>x. x = (outputs_feed, C)) (drop n (subscriptions s1))) = 1 \<and>
       n < length (subscriptions s1) \<and> subscriptions s1 ! n = (outputs_feed, C) \<and>
       (\<forall>hist r b. deliver n r b (run hist s1) =
          (run hist s1)\<lparr>emitted := emitted (run hist s1) @ [ev_subscribe_outputs C r b]\<rparr>) \<and>
       (\<forall>us. emitted (run (map (\<lambda>(r, b). deliver_update n r b) us) s1) =
          emitted s1 @ map (\<lambda>(r, b). ev_subscribe_outputs C r b) us))"
proof -
  define s1 where "s1 = snd (core_paired C s)"
  define n where "n = length (subscriptions s)"
  define kz where "kz = (if truthy (subscribe_outputs (this_options s)) then Suc n else n)"
  note cp = core_paired_subscriptions [OF assms]
  have subs: "subscriptions s1 =
      subscriptions s @ (if truthy (subscribe_outputs (this_options s)) then [(outputs_feed, C)] else [])
        @ (if truthy (subscribe_zones (this_options s)) then [(zones_feed, C)] else [])"
    unfolding s1_def by (rule cp(2))
  have zones: "length (filter (\<lambda>x. x = (zones_feed, C)) (drop n (subscriptions s1))) = 1 \<and>
       kz < length (subscriptions s1) \<and> subscriptions s1 ! kz = (zones_feed, C) \<and>
       (\<forall>hist r b. deliver kz r b (run hist s1) =
          (run hist s1)\<lparr>emitted := emitted (run hist s1) @ [ev_subscribe_zones C r b]\<rparr>) \<and>
       (\<forall>us. emitted (run (map (\<lambda>(r, b). deliver_update kz r b) us) s1) =
          emitted s1 @ map (\<lambda>(r, b). ev_subscribe_zones C r b) us)"
    if z: "truthy (subscribe_zones (this_options s))"
  proof -
    have one: "length (filter (\<lambda>x. x = (zones_feed, C)) (drop n (subscriptions s1))) = 1"
      using z by (simp add: subs n_def)
    have k: "kz < length (subscriptions s1)" and at: "subscriptions s1 ! kz = (zones_feed, C)"
      using z by (simp_all add: subs n_def kz_def nth_append)
    have each: "deliver kz r b (run hist s1) =
          (run hist s1)\<lparr>emitted := emitted (run hist s1) @ [ev_subscribe_zones C r b]\<rparr>" for hist r b
      using subscription_kept [OF k, of hist] at by (intro deliver_zones) simp_all
    have "emitted (run (map (\<lambda>(r, b). deliver_update kz r b) us) s1) =
          emitted s1 @ map (\<lambda>(r, b). ev_subscribe_zones C r b) us" for us
      by (simp add: deliveries_zones [OF k at])
    with one k at each show ?thesis by blast
  qed
  have outputs: "length (filter (\<lambda>x. x = (outputs_feed, C)) (drop n (subscriptions s1))) = 1 \<and>
       n < length (subscriptions s1) \<and> subscriptions s1 ! n = (outputs_feed, C) \<and>
       (\<forall>hist r b. deliver n r b (run hist s1) =
          (run hist s1)\<lparr>emitted := emitted (run hist s1) @ [ev_subscribe_outputs C r b]\<rparr>) \<and>
       (\<forall>us. emitted (run (map (\<lambda>(r, b). deliver_update n r b) us) s1) =
          emitted s1 @ map (\<lambda>(r, b). ev_subscribe_outputs C r b) us)"
    if z: "truthy (subscribe_outputs (this_options s))"
  proof -
    have one: "length (filter (\<lambda>x. x = (outputs_feed, C)) (drop n (subscriptions s1))) = 1"
      using z by (simp add: subs n_def)
    have k: "n < length (subscriptions s1)" and at: "subscriptions s1 ! n = (outputs_feed, C)"
      using z by (simp_all add: subs n_def nth_append)
    have each: "deliver n r b (run hist s1) =
          (run hist s1)\<lparr>emitted := emitted (run hist s1) @ [ev_subscribe_outputs C r b]\<rparr>" for hist r b
      using subscription_kept [OF k, of hist] at by (intro deliver_outputs) simp_all
    have "emitted (run (map (\<lambda>(r, b). deliver_update n r b) us) s1) =
          emitted s1 @ map (\<lambda>(r, b). ev_subscribe_outputs C r b) us" for us
      by (simp add: deliveries_outputs [OF k at])
    with one k at each show ?thesis by blast
  qed
  show ?thesis
    unfolding Let_def s1_def [symmetric] n_def [symmetric] kz_def [symmetric]
    using cp(1) zones outputs by blast
qed

theorem subscription_updates_re_emitted_witness:
  "fst (core_paired (RoonCore 7 True) (run [call_start_discovery None] (constructor both_feeds example_arrays))) = Returns () \<and>
   subscriptions (snd (core_paired (RoonCore 7 True) (run [call_start_discovery None] (constructor both_feeds example_arrays)))) =
     [(outputs_feed, RoonCore 7 True), (zones_feed, RoonCore 7 True)] \<and>
   emitted (run (map (\<lambda>(r, b). deliver_update 1 r b) [(''Subscribed'', ''z1''), (''Changed'', ''z2'')])
       (snd (core_paired (RoonCore 7 True) (run [call_start_discovery None] (constructor both_feeds example_arrays))))) =
     [ev_core_paired (RoonCore 7 True),
      ev_subscribe_zones (RoonCore 7 True) ''Subscribed'' ''z1'',
      ev_subscribe_zones (RoonCore 7 True) ''Changed'' ''z2''] \<and>
   emitted (run (map (\<lambda>(r, b). deliver_update 0 r b) [(''Subscribed'', ''o1'')])
       (snd (core_paired (RoonCore 7 True) (run [call_start_discovery None] (constructor both_feeds example_arrays))))) =
     [ev_core_paired (RoonCore 7 True),
      ev_subscribe_outputs (RoonCore 7 True) ''Subscribed'' ''o1'']"
proof -
  let ?s = "run [call_start_discovery None] (constructor both_feeds example_arrays)"
  let ?C = "RoonCore 7 True"
  let ?s1 = "snd (core_paired ?C ?s)"
  have st: "started ?s" by (rule started_after_start) simp
  have tr: "has_transport ?C" by simp
  have o: "truthy (subscribe_outputs (this_options ?s))"
    and z: "truthy (subscribe_zones (this_options ?s))"
    and n: "length (subscriptions ?s) = 0"
    by (simp_all add: op_defs constructor_def Let_def both_feeds_def example_options_def)
  have em: "emitted ?s1 = [ev_core_paired ?C]"
    and subs: "subscriptions ?s1 = [(outputs_feed, ?C), (zones_feed, ?C)]"
    by (simp_all add: op_defs constructor_def Let_def both_feeds_def example_options_def)
  note inst = subscription_updates_re_emitted [OF st tr, unfolded Let_def n]
  from inst have 1: "fst (core_paired ?C ?s) = Returns ()" by blast
  from inst z o have "\<forall>us. emitted (run (map (\<lambda>(r, b). deliver_update (Suc 0) r b) us) ?s1) =
          emitted ?s1 @ map (\<lambda>(r, b). ev_subscribe_zones ?C r b) us"
    by simp
  then have "emitted (run (map (\<lambda>(r, b). deliver_update 1 r b) [(''Subscribed'', ''z1''), (''Changed'', ''z2'')]) ?s1) =
          emitted ?s1 @ map (\<lambda>(r, b). ev_subscribe_zones ?C r b) [(''Subscribed'', ''z1''), (''Changed'', ''z2'')]"
    unfolding One_nat_def by (rule spec)
  then have 2: "emitted (run (map (\<lambda>(r, b). deliver_update 1 r b) [(''Subscribed'', ''z1''), (''Changed'', ''z2'')]) ?s1) =
     [ev_core_paired ?C, ev_subscribe_zones ?C ''Subscribed'' ''z1'', ev_subscribe_zones ?C ''Changed'' ''z2'']"
    unfolding em by simp
  from inst o have "\<forall>us. emitted (run (map (\<lambda>(r, b). deliver_update 0 r b) us) ?s1) =
          emitted ?s1 @ map (\<lambda>(r, b). ev_subscribe_outputs ?C r b) us"
    by simp
  then have "emitted (run (map (\<lambda>(r, b). deliver_update 0 r b) [(''Subscribed'', ''o1'')]) ?s1) =
          emitted ?s1 @ map (\<lambda>(r, b). ev_subscribe_outputs ?C r b) [(''Subscribed'', ''o1'')]"
    by (rule spec)
  then have 3: "emitted (run (map (\<lambda>(r, b). deliver_update 0 r b) [(''Subscribed'', ''o1'')]) ?s1) =
     [ev_core_paired ?C, ev_subscribe_outputs ?C ''Subscribed'' ''o1'']"
    unfolding em by simp
  from 1 subs 2 3 show ?thesis by blast
qed

section \<open>The provided services\<close>

lemma start_discovery_passed:
  "this_core s = None \<Longrightarrow>
   start_discovery (Some a) s =
     (Returns (), (initializeServices a (s\<lparr>this_core := Some new_TransientObject\<rparr>))
        \<lparr>api_calls := api_calls (initializeServices a (s\<lparr>this_core := Some new_TransientObject\<rparr>)) @ [api_start_discovery]\<rparr>)"
  by (simp add: start_discovery_def provided_or_default_def instantiateCore_def Let_def)

lemma ws_connect_passed:
  "this_core s = None \<Longrightarrow>
   ws_connect w (Some a) s =
     (Returns (), (initializeServices a (s\<lparr>this_core := Some new_TransientObject\<rparr>))
        \<lparr>api_calls := api_calls (initializeServices a (s\<lparr>this_core := Some new_TransientObject\<rparr>)) @ [api_ws_connect w]\<rparr>)"
  by (simp add: ws_connect_def provided_or_default_def instantiateCore_def Let_def)

lemma initializeServices_effect:
  "arrays (initializeServices a s) = (arrays s)(a := arrays s a @ [this_status]) \<and>
   (\<exists>req opt. api_calls (initializeServices a s) = api_calls s @ [init_services req opt a])"
  by (simp add: initializeServices_def Let_def)

text \<open>
  C10 (amended). When \<^verbatim>\<open>start_discovery\<close> or \<^verbatim>\<open>ws_connect\<close> is called with an array on
  an instance that has not been started, the call returns normally, the caller's array
  has gained exactly one element at its end, \<^verbatim>\<open>this._status\<close>, every other array is
  unchanged, and that same array is what \<^verbatim>\<open>init_services\<close> is given, just before the
  client is told to discover or connect.
\<close>

theorem start_appends_status_to_callers_array:
  assumes "\<not> started s"
  shows "(let s' = snd (start_discovery (Some a) s) in
      fst (start_discovery (Some a) s) = Returns () \<and>
      arrays s' a = arrays s a @ [this_status] \<and>
      (\<forall>b. b \<noteq> a \<longrightarrow> arrays s' b = arrays s b) \<and>
      (\<exists>req opt. api_calls s' = api_calls s @ [init_services req opt a, api_start_discovery])) \<and>
    (let s' = snd (ws_connect w (Some a) s) in
      fst (ws_connect w (Some a) s) = Returns () \<and>
      arrays s' a = arrays s a @ [this_status] \<and>
      (\<forall>b. b \<noteq> a \<longrightarrow> arrays s' b = arrays s b) \<and>
      (\<exists>req opt. api_calls s' = api_calls s @ [init_services req opt a, api_ws_connect w]))"
proof -
  from assms have u: "this_core s = None" by (simp add: started_def)
  obtain req opt where
    i: "api_calls (initializeServices a (s\<lparr>this_core := Some new_TransientObject\<rparr>)) = api_calls s @ [init_services req opt a]"
    using initializeServices_effect [of a "s\<lparr>this_core := Some new_TransientObject\<rparr>"] by auto
  have ar: "arrays (initializeServices a (s\<lparr>this_core := Some new_TransientObject\<rparr>)) = (arrays s)(a := arrays s a @ [this_status])"
    using initializeServices_effect [of a "s\<lparr>this_core := Some new_TransientObject\<rparr>"] by simp
  show ?thesis
    by (simp add: Let_def start_discovery_passed [OF u] ws_connect_passed [OF u] i ar)
qed

theorem start_appends_status_to_callers_array_witness:
  "fst (start_discovery (Some (caller_array 0)) (constructor example_options example_arrays)) = Returns () \<and>
   arrays (snd (start_discovery (Some (caller_array 0)) (constructor example_options example_arrays))) (caller_array 0) =
     [host_service 1, this_status] \<and>
   arrays (snd (ws_connect ''ws'' (Some (caller_array 0)) (constructor example_options example_arrays))) (caller_array 0) =
     [host_service 1, this_status]"
proof -
  have u: "\<not> started (constructor example_options example_arrays)"
    by (simp add: started_def constructor_unstarted)
  have h: "arrays (constructor example_options example_arrays) (caller_array 0) = [host_service 1]"
    by (simp add: constructor_def Let_def example_arrays_def)
  note inst = start_appends_status_to_callers_array [OF u, of "caller_array 0" "''ws''", unfolded Let_def h]
  from inst show ?thesis by simp
qed

text \<open>
  C10 as stated fails on a started instance: the guard throws before the push, so the
  caller's array is left as it was and is never handed to \<^verbatim>\<open>init_services\<close>.
\<close>

theorem second_start_leaves_array_alone:
  "fst (start_discovery (Some (caller_array 0))
       (run [call_start_discovery None] (constructor example_options example_arrays))) = Throws (Error already_started) \<and>
   arrays (run [call_start_discovery None] (constructor example_options example_arrays)) (caller_array 0) = [host_service 1] \<and>
   arrays (snd (start_discovery (Some (caller_array 0))
       (run [call_start_discovery None] (constructor example_options example_arrays)))) (caller_array 0) = [host_service 1] \<and>
   api_calls (snd (start_discovery (Some (caller_array 0))
       (run [call_start_discovery None] (constructor example_options example_arrays)))) =
     api_calls (run [call_start_discovery None] (constructor example_options example_arrays))"
  by (simp add: op_defs constructor_def Let_def example_arrays_def example_options_def)

section \<open>Options set after construction\<close>

text \<open>
  C4. The forcing of the transport requirement is in the constructor only. Construct with
  a description alone, call \<^verbatim>\<open>update_options({subscribe_zones: true})\<close>, then
  \<^verbatim>\<open>start_discovery()\<close>: the flag is merged, \<^verbatim>\<open>RoonApiTransport\<close> stays unset, and
  \<^verbatim>\<open>init_services\<close> gets an empty list of required services. The same flag given to the
  constructor puts the transport class in that list.
\<close>

theorem late_subscription_flag_leaves_transport_out:
  "this_options (run [call_update_options subscribe_zones_only, call_start_discovery None]
      (constructor example_options example_arrays)) =
     example_options\<lparr>subscribe_zones := Some True\<rparr> \<and>
   api_calls (run [call_update_options subscribe_zones_only, call_start_discovery None]
      (constructor example_options example_arrays)) =
     [createRoonApi (Some ''ext'') None, init_services [] [] (default_array 0), api_start_discovery] \<and>
   api_calls (run [call_start_discovery None]
      (constructor (example_options\<lparr>subscribe_zones := Some True\<rparr>) example_arrays)) =
     [createRoonApi (Some ''ext'') None, init_services [RoonKit_RoonApiTransport] [] (default_array 0), api_start_discovery]"
  by (simp add: op_defs constructor_def Let_def example_options_def subscribe_zones_only_def
      Object_assign_def assign_property_def)

end
